theory Spec2Isabelle
  imports Complex_Main
begin

section \<open>Data model\<close>

text \<open>
  The \<open>Detection\<close> interface of \<open>modelLoader.ts\<close>: a bounding box
  \<open>[x, y, width, height]\<close>, a class label and a confidence. A JavaScript number is
  modelled by the real it denotes. The arithmetic of the detector is rounded to binary64
  (section ``Binary64 rounding''); the arithmetic of the aggregators and of the renderer is
  that of the reals.
\<close>

record detection =
  bbox :: "real \<times> real \<times> real \<times> real"
  class_name :: string
  confidence :: real

section \<open>The aggregators of the two pages\<close>

text \<open>
  \<open>VideoDetectionPage.tsx\<close> keeps \<open>{totalDetections, safeWorkers, violations,
  avgConfidence}\<close>; \<open>LiveWebcamPage.tsx\<close> keeps the same four numbers with the last field
  called \<open>confidence\<close> (here \<open>confidence_pct\<close>, the name \<open>confidence\<close> being the
  field of a detection).
\<close>

record stats =
  totalDetections :: nat
  safeWorkers :: nat
  violations :: nat
  avgConfidence :: real

record detectionStats =
  totalDetections_live :: nat
  safeWorkers_live :: nat
  violations_live :: nat
  confidence_pct :: real

text \<open>\<open>newDetections.reduce((sum, det) => sum + det.confidence, 0)\<close>\<close>

definition sumConfidence :: "detection list \<Rightarrow> real" where
  "sumConfidence newDetections = foldl (\<lambda>sum det. sum + confidence det) 0 newDetections"

text \<open>\<open>newDetections.some(det => det.class === name)\<close>\<close>

definition some_class :: "string \<Rightarrow> detection list \<Rightarrow> bool" where
  "some_class name newDetections = list_ex (\<lambda>det. class_name det = name) newDetections"

text \<open>
  \<open>updateStats\<close> of \<open>VideoDetectionPage.tsx\<close>. The JavaScript \<open>!safeWorkers\<close> is
  true exactly when the number is \<open>0\<close>.
\<close>

definition updateStats :: "detection list \<Rightarrow> stats" where
  "updateStats newDetections =
     (let totalDetections = length newDetections;
          avgConfidence = (if totalDetections > 0
                           then sumConfidence newDetections / real totalDetections
                           else 0);
          hasHelmet = some_class ''Protective Helmet'' newDetections;
          hasJacket = some_class ''Safety Jacket'' newDetections;
          safeWorkers = (if hasHelmet \<and> hasJacket then 1 else 0 :: nat);
          violations = (if totalDetections > 0 \<and> safeWorkers = 0 then 1 else 0 :: nat)
      in \<lparr>totalDetections = totalDetections,
          safeWorkers = safeWorkers,
          violations = violations,
          avgConfidence = avgConfidence * 100\<rparr>)"

text \<open>\<open>updateDetectionStats\<close> of \<open>LiveWebcamPage.tsx\<close>: the same computation.\<close>

definition updateDetectionStats :: "detection list \<Rightarrow> detectionStats" where
  "updateDetectionStats newDetections =
     (let totalDetections = length newDetections;
          avgConfidence = (if totalDetections > 0
                           then sumConfidence newDetections / real totalDetections
                           else 0);
          hasHelmet = some_class ''Protective Helmet'' newDetections;
          hasJacket = some_class ''Safety Jacket'' newDetections;
          safeWorkers = (if hasHelmet \<and> hasJacket then 1 else 0 :: nat);
          violations = (if totalDetections > 0 \<and> safeWorkers = 0 then 1 else 0 :: nat)
      in \<lparr>totalDetections_live = totalDetections,
          safeWorkers_live = safeWorkers,
          violations_live = violations,
          confidence_pct = avgConfidence * 100\<rparr>)"


section \<open>The overlay renderer\<close>

text \<open>
  The calls made on the 2D context of the output canvas, in the order they are made.
  \<open>DrawImage\<close> is \<open>ctx.drawImage(videoElement, x, y, w, h)\<close>.
\<close>

datatype canvas_op =
    DrawImage real real real real
  | SetStrokeStyle string
  | SetLineWidth real
  | StrokeRect real real real real
  | SetFont string
  | SetFillStyle string
  | FillRect real real real real
  | FillText string real real

text \<open>
  Two functions of the host are parameters of the model: the width that
  \<open>ctx.measureText\<close> reports for a label and \<open>Number.prototype.toFixed(1)\<close>.
\<close>

record host =
  measureText :: "string \<Rightarrow> real"
  toFixed1 :: "real \<Rightarrow> string"

definition colors :: "string list" where
  "colors = [''#3B82F6'', ''#10B981'', ''#8B5CF6'', ''#F59E0B'',
             ''#EF4444'', ''#6366F1'', ''#EC4899'']"

text \<open>The body of the \<open>forEach\<close> callback of \<open>drawDetections\<close>.\<close>

definition drawDetection :: "host \<Rightarrow> real \<Rightarrow> real \<Rightarrow> detection \<Rightarrow> nat \<Rightarrow> canvas_op list" where
  "drawDetection h canvasWidth canvasHeight det index =
     (case bbox det of (x, y, width, height) \<Rightarrow>
        let scaledX = (x / 640) * canvasWidth;
            scaledY = (y / 640) * canvasHeight;
            scaledWidth = (width / 640) * canvasWidth;
            scaledHeight = (height / 640) * canvasHeight;
            color = colors ! (index mod length colors);
            label = class_name det @ '' ('' @ toFixed1 h (confidence det * 100) @ ''%)'';
            textWidth = measureText h label;
            textHeight = 20
        in [SetStrokeStyle color,
            SetLineWidth 3,
            StrokeRect scaledX scaledY scaledWidth scaledHeight,
            SetFont ''14px Inter, sans-serif'',
            SetFillStyle color,
            FillRect scaledX (scaledY - textHeight - 5) (textWidth + 10) (textHeight + 5),
            SetFillStyle ''white'',
            FillText label (scaledX + 5) (scaledY - 8)])"

text \<open>\<open>Array.prototype.forEach\<close> with the index passed to the callback.\<close>

fun forEach_from :: "nat \<Rightarrow> ('a \<Rightarrow> nat \<Rightarrow> 'b list) \<Rightarrow> 'a list \<Rightarrow> 'b list" where
  "forEach_from index f [] = []"
| "forEach_from index f (x # xs) = f x index @ forEach_from (Suc index) f xs"

definition drawDetections :: "host \<Rightarrow> detection list \<Rightarrow> real \<Rightarrow> real \<Rightarrow> canvas_op list" where
  "drawDetections h detections canvasWidth canvasHeight =
     forEach_from 0 (drawDetection h canvasWidth canvasHeight) detections"

section \<open>Binary64 rounding\<close>

text \<open>
  Rounding of a real to the nearest integer, a tie going to the even one.
\<close>

definition round_even :: "real \<Rightarrow> int" where
  "round_even y =
     (let f = \<lfloor>y\<rfloor>; d = y - of_int f
      in if d < 1 / 2 then f else if 1 / 2 < d then f + 1 else if even f then f else f + 1)"

text \<open>
  The distance between neighbouring binary64 numbers with 53 significant bits around a
  positive \<open>x\<close>, found by halving or doubling \<open>x\<close> into \<open>[1, 2)\<close>: it is
  \<open>2^(e - 52)\<close> when \<open>2^e \<le> x < 2^(e + 1)\<close>.
\<close>

function ulp_of :: "real \<Rightarrow> real" where
  "ulp_of x =
     (if x \<le> 0 then 0
      else if 2 \<le> x then 2 * ulp_of (x / 2)
      else if x < 1 then ulp_of (2 * x) / 2
      else 1 / 2 ^ 52)"
  by pat_completeness auto
termination
proof (relation "measure (\<lambda>x. 2 * nat \<lceil>1 / x\<rceil> + nat \<lceil>x\<rceil>)")
  show "wf (measure (\<lambda>x. 2 * nat \<lceil>1 / x\<rceil> + nat \<lceil>x\<rceil>))" by simp
next
  fix x :: real
  assume "\<not> x \<le> 0" and x: "2 \<le> x"
  have a: "\<lceil>1 / (x / 2)\<rceil> = 1" using x by (simp add: ceiling_eq_iff)
  have b: "\<lceil>1 / x\<rceil> = 1" using x by (simp add: ceiling_eq_iff)
  have "x / 2 \<le> x - 1" using x by simp
  then have "\<lceil>x / 2\<rceil> \<le> \<lceil>x - 1\<rceil>" by (rule ceiling_mono)
  then have c: "\<lceil>x / 2\<rceil> < \<lceil>x\<rceil>" by simp
  have "0 < \<lceil>x\<rceil>" using x by simp
  with a b c show "(x / 2, x) \<in> measure (\<lambda>x. 2 * nat \<lceil>1 / x\<rceil> + nat \<lceil>x\<rceil>)"
    by simp
next
  fix x :: real
  assume pos: "\<not> x \<le> 0" and "\<not> 2 \<le> x" and x: "x < 1"
  have cx: "\<lceil>x\<rceil> = 1" using pos x by (simp add: ceiling_eq_iff)
  have c2: "\<lceil>2 * x\<rceil> \<le> 2" using x by (simp add: ceiling_le_iff)
  have y: "1 < 1 / x" using pos x by simp
  have "\<lceil>1 / (2 * x)\<rceil> < \<lceil>1 / x\<rceil>"
  proof (cases "2 \<le> 1 / x")
    case True
    then have "1 / (2 * x) \<le> 1 / x - 1" by (simp add: field_simps)
    then have "\<lceil>1 / (2 * x)\<rceil> \<le> \<lceil>1 / x - 1\<rceil>" by (rule ceiling_mono)
    then show ?thesis by simp
  next
    case False
    then have "1 / (2 * x) \<le> 1" using pos by (simp add: field_simps)
    then have "\<lceil>1 / (2 * x)\<rceil> \<le> 1" by (simp add: ceiling_le_iff)
    moreover have "1 < \<lceil>1 / x\<rceil>" using y le_of_int_ceiling [of "1 / x"] by linarith
    ultimately show ?thesis by linarith
  qed
  moreover have "0 < \<lceil>1 / x\<rceil>" using y le_of_int_ceiling [of "1 / x"] by linarith
  ultimately have n1: "nat \<lceil>1 / (2 * x)\<rceil> + 1 \<le> nat \<lceil>1 / x\<rceil>" by linarith
  have n2: "nat \<lceil>2 * x\<rceil> \<le> 2" using c2 by linarith
  have n3: "nat \<lceil>x\<rceil> = 1" using cx by simp
  show "(2 * x, x) \<in> measure (\<lambda>x. 2 * nat \<lceil>1 / x\<rceil> + nat \<lceil>x\<rceil>)"
    unfolding in_measure using n1 n2 n3 by linarith
qed

declare ulp_of.simps [simp del]

text \<open>
  \<open>fl x\<close> is the binary64 number that an arithmetic operation with the exact result
  \<open>x\<close> returns: \<open>x\<close> rounded to the nearest multiple of the spacing at \<open>x\<close>,
  ties to even. Below \<open>2^-1022\<close> the spacing stays \<open>2^-1074\<close> (subnormal
  numbers). Overflow to \<open>Infinity\<close>, from \<open>2^1024\<close> on, is not modelled; the
  detector computes no number above 512. A real is a binary64 number when rounding leaves
  it as it is.
\<close>

definition fl :: "real \<Rightarrow> real" where
  "fl x =
     (if x = 0 then 0
      else let u = max (ulp_of \<bar>x\<bar>) (1 / 2 ^ 1074)
           in of_int (round_even (x / u)) * u)"

definition is_double :: "real \<Rightarrow> bool" where
  "is_double x = (fl x = x)"

section \<open>The detector\<close>

text \<open>
  \<open>YOLODetector\<close> of \<open>modelLoader.ts\<close>. The graph model is opaque. A thrown
  exception (a rejected promise) is \<open>Inl\<close> with its message, a returned value is
  \<open>Inr\<close>.
\<close>

type_synonym graph_model = nat

record detector =
  model :: "graph_model option"

definition classNames :: "string list" where
  "classNames = [''Protective Helmet'', ''Safety Jacket'', ''Protective Gloves'',
                 ''Dust Mask'', ''Eye Wear'', ''Safety Boots'', ''Shield'']"

definition isLoaded :: "detector \<Rightarrow> bool" where
  "isLoaded d = (model d \<noteq> None)"

text \<open>
  The body of the \<open>try\<close> block of \<open>loadModel\<close>. The outcome of
  \<open>createDummyModel\<close> (TensorFlow.js building the model) is a parameter: it throws or
  returns a model. The third component is what was written to the console.
\<close>

definition loadModel_try ::
  "detector \<Rightarrow> string \<Rightarrow> string + graph_model \<Rightarrow> (string + bool) \<times> detector \<times> string list" where
  "loadModel_try d modelPath created =
     (case created of
        Inl e \<Rightarrow> (Inl e, d, [''Loading model from '' @ modelPath @ ''...''])
      | Inr m \<Rightarrow> (Inr True, d\<lparr>model := Some m\<rparr>,
                  [''Loading model from '' @ modelPath @ ''...'', ''Model loaded successfully'']))"

text \<open>\<open>loadModel\<close>: the \<open>try\<close> block with its \<open>catch\<close>.\<close>

definition loadModel ::
  "detector \<Rightarrow> string \<Rightarrow> string + graph_model \<Rightarrow> (string + bool) \<times> detector \<times> string list" where
  "loadModel d modelPath created =
     (case loadModel_try d modelPath created of
        (Inl e, d', out) \<Rightarrow> (Inr False, d', out @ [''Error loading model: '' @ e])
      | (Inr b, d', out) \<Rightarrow> (Inr b, d', out))"

text \<open>
  \<open>Math.random()\<close>: the values it returns are a sequence \<open>rand\<close>, a parameter of the
  model, read at a position that advances by one with every call. Every product and sum
  of the detector is rounded with \<open>fl\<close>; \<open>Math.floor\<close> and the additions of
  small integers are exact.

  \<open>classNames[classIndex]\<close>: out of range JavaScript yields \<open>undefined\<close>, written
  here as the string \<open>undefined\<close>, which is not a class name.
\<close>

definition classNames_at :: "int \<Rightarrow> string" where
  "classNames_at classIndex =
     (if 0 \<le> classIndex \<and> classIndex < int (length classNames)
      then classNames ! nat classIndex else ''undefined'')"

text \<open>
  The \<open>for\<close> loop of \<open>generateMockDetections\<close>. Each round calls
  \<open>Math.random()\<close> six times: class index, confidence, then x, y, width and height.
\<close>

function mockLoop ::
  "(nat \<Rightarrow> real) \<Rightarrow> nat \<Rightarrow> int \<Rightarrow> int \<Rightarrow> detection list \<Rightarrow> detection list \<times> nat" where
  "mockLoop rand p i numDetections detections =
     (if i < numDetections then
        let classIndex = \<lfloor>fl (rand p * real (length classNames))\<rfloor>;
            confidence = fl (0.5 + fl (rand (p + 1) * 0.5));
            det = \<lparr>bbox = (fl (rand (p + 2) * 400),
                           fl (rand (p + 3) * 300),
                           fl (50 + fl (rand (p + 4) * 100)),
                           fl (50 + fl (rand (p + 5) * 100))),
                   class_name = classNames_at classIndex,
                   confidence = confidence\<rparr>
        in mockLoop rand (p + 6) (i + 1) numDetections (detections @ [det])
      else (detections, p))"
  by pat_completeness auto
termination
  by (relation "measure (\<lambda>(rand, p, i, numDetections, detections). nat (numDetections - i))") auto

declare mockLoop.simps [simp del]

definition generateMockDetections :: "(nat \<Rightarrow> real) \<Rightarrow> nat \<Rightarrow> detection list \<times> nat" where
  "generateMockDetections rand p =
     (let numDetections = \<lfloor>fl (rand p * 4)\<rfloor> + 1
      in mockLoop rand (p + 1) 0 numDetections [])"

text \<open>
  What TensorFlow.js does inside the \<open>try\<close> block of \<open>detect\<close>: building the tensor
  from the image element may throw, and so may \<open>tensor.dispose()\<close>.
\<close>

record tf_faults =
  fromPixels_fault :: "string option"
  dispose_fault :: "string option"

text \<open>
  \<open>detect\<close>: the outcome, the new position in the random sequence and the lines
  written with \<open>console.error\<close>.
\<close>

definition detect ::
  "detector \<Rightarrow> tf_faults \<Rightarrow> (nat \<Rightarrow> real) \<Rightarrow> nat \<Rightarrow> (string + detection list) \<times> nat \<times> string list" where
  "detect d faults rand p =
     (if model d = None then (Inl ''Model not loaded'', p, [])
      else
        (case fromPixels_fault faults of
           Some e \<Rightarrow> (Inr [], p, [''Detection error: '' @ e])
         | None \<Rightarrow>
             (case generateMockDetections rand p of (detections, p') \<Rightarrow>
                (case dispose_fault faults of
                   Some e \<Rightarrow> (Inr [], p', [''Detection error: '' @ e])
                 | None \<Rightarrow> (Inr detections, p', [])))))"

section \<open>The frame pipeline\<close>

text \<open>What \<open>processFrame\<close> reads from the video element.\<close>

record video =
  paused :: bool
  ended :: bool
  videoWidth :: nat
  videoHeight :: nat

text \<open>
  What a run of the pipeline does, in order: operations on the output canvas, calls of
  \<open>yoloDetector.detect\<close>, invocations of \<open>drawDetections\<close> (the renderer) and of
  the \<open>onDetection\<close> callback (the aggregator), and lines of \<open>console.error\<close>.
\<close>

datatype event =
    Canvas canvas_op
  | DetectCalled
  | DrawDetectionsCalled "detection list" real real
  | OnDetection "detection list"
  | ConsoleError string

text \<open>
  The state a run of \<open>processVideo\<close> works on: the field \<open>animationId\<close> of the
  \<open>VideoProcessor\<close>; the animation frame requests of the browser that are neither run
  nor cancelled, and the last handle the browser gave out; the size of the output canvas;
  the \<open>yoloDetector\<close> singleton and the position in the random sequence; the outcomes
  of the \<open>detect\<close> calls whose \<open>processFrame\<close> is suspended at its \<open>await\<close>;
  and the events so far.
\<close>

record world =
  animationId :: "nat option"
  frameRequests :: "nat list"
  lastHandle :: nat
  canvasWidth :: nat
  canvasHeight :: nat
  yoloDetector :: detector
  randomPos :: nat
  awaited :: "(string + detection list) list"
  trace :: "event list"

definition requestAnimationFrame :: "world \<Rightarrow> nat \<times> world" where
  "requestAnimationFrame w =
     (let handle = Suc (lastHandle w)
      in (handle, w\<lparr>lastHandle := handle, frameRequests := frameRequests w @ [handle]\<rparr>))"

definition cancelAnimationFrame :: "nat \<Rightarrow> world \<Rightarrow> world" where
  "cancelAnimationFrame handle w = w\<lparr>frameRequests := removeAll handle (frameRequests w)\<rparr>"

text \<open>
  \<open>processFrame\<close> from its start to the \<open>await\<close>. The body of \<open>detect\<close> has no
  \<open>await\<close> of its own, so it runs to its end inside the call and the promise it
  returns is settled with the outcome computed here.
\<close>

definition processFrame_start :: "video \<Rightarrow> tf_faults \<Rightarrow> (nat \<Rightarrow> real) \<Rightarrow> world \<Rightarrow> world" where
  "processFrame_start videoElement faults rand w =
     (if paused videoElement \<or> ended videoElement then w
      else
        let width = (if videoWidth videoElement = 0 then 640 else videoWidth videoElement);
            height = (if videoHeight videoElement = 0 then 480 else videoHeight videoElement)
        in (case detect (yoloDetector w) faults rand (randomPos w) of (result, p', errors) \<Rightarrow>
              w\<lparr>canvasWidth := width,
                canvasHeight := height,
                randomPos := p',
                awaited := awaited w @ [result],
                trace := trace w @ [Canvas (DrawImage 0 0 (real width) (real height)), DetectCalled]
                           @ map ConsoleError errors\<rparr>))"

text \<open>
  \<open>processFrame\<close> from the \<open>await\<close> to its end, run when the awaited promise has
  settled: the rest of the \<open>try\<close> block or the \<open>catch\<close> block, then the request
  for the next frame. \<open>onDetection\<close> tells whether the optional callback was given.
\<close>

definition processFrame_resume :: "host \<Rightarrow> bool \<Rightarrow> world \<Rightarrow> world" where
  "processFrame_resume h onDetection w =
     (case awaited w of
        [] \<Rightarrow> w
      | result # rest \<Rightarrow>
          let w1 = w\<lparr>awaited := rest\<rparr>;
              w2 = (case result of
                      Inr detections \<Rightarrow>
                        w1\<lparr>trace := trace w1
                             @ DrawDetectionsCalled detections
                                 (real (canvasWidth w1)) (real (canvasHeight w1))
                             # map Canvas (drawDetections h detections
                                 (real (canvasWidth w1)) (real (canvasHeight w1)))
                             @ (if onDetection then [OnDetection detections] else [])\<rparr>
                    | Inl error \<Rightarrow>
                        w1\<lparr>trace := trace w1 @ [ConsoleError (''Detection error: '' @ error)]\<rparr>)
          in (case requestAnimationFrame w2 of (handle, w3) \<Rightarrow> w3\<lparr>animationId := Some handle\<rparr>))"

text \<open>\<open>processVideo\<close> calls \<open>processFrame\<close> once.\<close>

definition processVideo :: "video \<Rightarrow> tf_faults \<Rightarrow> (nat \<Rightarrow> real) \<Rightarrow> world \<Rightarrow> world" where
  "processVideo videoElement faults rand w = processFrame_start videoElement faults rand w"

text \<open>
  The browser runs the callback of a frame request: the request leaves the list and
  \<open>processFrame\<close> starts. A handle that is not in the list runs nothing.
\<close>

definition runFrameCallback :: "nat \<Rightarrow> video \<Rightarrow> tf_faults \<Rightarrow> (nat \<Rightarrow> real) \<Rightarrow> world \<Rightarrow> world" where
  "runFrameCallback handle videoElement faults rand w =
     (if handle \<in> set (frameRequests w)
      then processFrame_start videoElement faults rand
             (w\<lparr>frameRequests := removeAll handle (frameRequests w)\<rparr>)
      else w)"

text \<open>
  \<open>stopProcessing\<close>. The test \<open>if (this.animationId)\<close> is false for \<open>null\<close> and
  for the number \<open>0\<close>.
\<close>

definition stopProcessing :: "world \<Rightarrow> world" where
  "stopProcessing w =
     (case animationId w of
        None \<Rightarrow> w
      | Some handle \<Rightarrow>
          if handle \<noteq> 0 then (cancelAnimationFrame handle w)\<lparr>animationId := None\<rparr> else w)"

text \<open>
  The stats of \<open>VideoDetectionPage\<close> after a sequence of events: the callback the page
  passes to \<open>processVideo\<close> calls \<open>updateStats\<close> with the detections it is given.
\<close>

fun stats_after :: "stats \<Rightarrow> event list \<Rightarrow> stats" where
  "stats_after s [] = s"
| "stats_after s (OnDetection detections # es) = stats_after (updateStats detections) es"
| "stats_after s (e # es) = stats_after s es"

text \<open>The events that are invocations of the renderer or of the aggregator.\<close>

fun is_invocation :: "event \<Rightarrow> bool" where
  "is_invocation (DrawDetectionsCalled detections cw ch) = True"
| "is_invocation (OnDetection detections) = True"
| "is_invocation e = False"

section \<open>The webcam hook\<close>

text \<open>
  The state of \<open>useWebcam\<close>: \<open>isActive\<close>, \<open>error\<close>, and \<open>streamRef.current\<close>, a
  media stream given by the identifiers of its tracks (\<open>None\<close> is \<open>null\<close>). The
  tracks themselves belong to the browser: \<open>tracks\<close> maps a track to its
  \<open>readyState\<close>.
\<close>

datatype readyState = Live | Ended

record webcam =
  isActive :: bool
  error :: "string option"
  streamRef :: "nat list option"
  tracks :: "nat \<Rightarrow> readyState"

text \<open>\<open>track.stop()\<close>\<close>

definition stop_track :: "(nat \<Rightarrow> readyState) \<Rightarrow> nat \<Rightarrow> (nat \<Rightarrow> readyState)" where
  "stop_track ts track = ts(track := Ended)"

text \<open>
  \<open>startWebcam\<close>: \<open>getUserMedia\<close> resolves with a stream of live tracks or rejects;
  a rejection with an \<open>Error\<close> object carries its message (\<open>Some\<close>), any other
  rejection does not.
\<close>

definition startWebcam :: "string option + nat list \<Rightarrow> webcam \<Rightarrow> nat list option \<times> webcam" where
  "startWebcam outcome w =
     (let w1 = w\<lparr>error := None\<rparr>
      in (case outcome of
            Inr stream \<Rightarrow>
              (Some stream,
               w1\<lparr>tracks := foldl (\<lambda>ts track. ts(track := Live)) (tracks w1) stream,
                  streamRef := Some stream,
                  isActive := True\<rparr>)
          | Inl err \<Rightarrow>
              (None,
               w1\<lparr>error := Some (case err of Some message \<Rightarrow> message
                                    | None \<Rightarrow> ''Failed to access webcam''),
                  isActive := False\<rparr>)))"

definition stopWebcam :: "webcam \<Rightarrow> webcam" where
  "stopWebcam w =
     (let w1 = (case streamRef w of
                  Some stream \<Rightarrow> w\<lparr>tracks := foldl stop_track (tracks w) stream,
                                  streamRef := None\<rparr>
                | None \<Rightarrow> w)
      in w1\<lparr>isActive := False, error := None\<rparr>)"

text \<open>
  Concrete inputs for the examples. The host of the examples reports seven pixels for
  each character of a label and prints \<open>50.0\<close> for \<open>toFixed(1)\<close>, which is
  what JavaScript prints for the confidence \<open>0.5\<close> of the examples.
\<close>

definition constant_random :: "real \<Rightarrow> nat \<Rightarrow> real" where
  "constant_random r n = r"

definition sample_host :: host where
  "sample_host = \<lparr>measureText = (\<lambda>label. 7 * real (length label)), toFixed1 = (\<lambda>x. ''50.0'')\<rparr>"

definition playing :: video where
  "playing = \<lparr>paused = False, ended = False, videoWidth = 1280, videoHeight = 720\<rparr>"

definition no_faults :: tf_faults where
  "no_faults = \<lparr>fromPixels_fault = None, dispose_fault = None\<rparr>"

definition loaded_world :: world where
  "loaded_world = \<lparr>animationId = None, frameRequests = [], lastHandle = 0,
                    canvasWidth = 300, canvasHeight = 150,
                    yoloDetector = \<lparr>model = Some 0\<rparr>, randomPos = 0,
                    awaited = [], trace = []\<rparr>"

definition helmet :: "real \<Rightarrow> detection" where
  "helmet c = \<lparr>bbox = (0, 0, 50, 50), class_name = ''Protective Helmet'', confidence = c\<rparr>"

definition jacket :: "real \<Rightarrow> detection" where
  "jacket c = \<lparr>bbox = (10, 10, 60, 60), class_name = ''Safety Jacket'', confidence = c\<rparr>"


definition pixel_fault :: tf_faults where
  "pixel_fault = \<lparr>fromPixels_fault = Some ''no pixels'', dispose_fault = None\<rparr>"

definition two_tracks :: webcam where
  "two_tracks = \<lparr>isActive = True, error = None, streamRef = Some [0, 1],
                  tracks = (\<lambda>track. Live)\<rparr>"

text \<open>
  The ranges that the values of a mock detection are claimed to lie in: the confidence in
  \<open>[0.5, 1)\<close>, the class one of the seven class names, x in \<open>[0, 400)\<close>, y in
  \<open>[0, 300)\<close>, width and height in \<open>[50, 150)\<close>.
\<close>

definition in_mock_range :: "detection \<Rightarrow> bool" where
  "in_mock_range d =
     (case bbox d of (x, y, width, height) \<Rightarrow>
        1 / 2 \<le> confidence d \<and> confidence d < 1
        \<and> class_name d \<in> set classNames
        \<and> 0 \<le> x \<and> x < 400
        \<and> 0 \<le> y \<and> y < 300
        \<and> 50 \<le> width \<and> width < 150
        \<and> 50 \<le> height \<and> height < 150)"

text \<open>
  The ranges with the upper ends that rounding reaches: the confidence in \<open>[0.5, 1]\<close>,
  width and height in \<open>[50, 150]\<close>; the others as before.
\<close>

definition in_rounded_range :: "detection \<Rightarrow> bool" where
  "in_rounded_range d =
     (case bbox d of (x, y, width, height) \<Rightarrow>
        1 / 2 \<le> confidence d \<and> confidence d \<le> 1
        \<and> class_name d \<in> set classNames
        \<and> 0 \<le> x \<and> x < 400
        \<and> 0 \<le> y \<and> y < 300
        \<and> 50 \<le> width \<and> width \<le> 150
        \<and> 50 \<le> height \<and> height \<le> 150)"

text \<open>The largest binary64 number below 1, and the detection the mock makes of it.\<close>

definition below_one :: real where
  "below_one = 1 - 1 / 2 ^ 53"

definition edge_detection :: detection where
  "edge_detection = \<lparr>bbox = (400 - 1 / 2 ^ 44, 300 - 1 / 2 ^ 44, 150, 150),
                       class_name = ''Shield'', confidence = 1\<rparr>"

text \<open>
  One whole run of \<open>processFrame\<close>, nothing happening between the \<open>await\<close> and
  the continuation.
\<close>

definition processFrame :: "host \<Rightarrow> bool \<Rightarrow> video \<Rightarrow> tf_faults \<Rightarrow> (nat \<Rightarrow> real) \<Rightarrow> world \<Rightarrow> world" where
  "processFrame h onDetection videoElement faults rand w =
     processFrame_resume h onDetection (processFrame_start videoElement faults rand w)"

text \<open>
  Two states of a run on a playing video: after the first frame, when the pipeline waits
  for the animation frame it has requested; and after the browser has run that request,
  when the second \<open>detect\<close> call is in flight.
\<close>

definition pending_world :: world where
  "pending_world =
     processFrame_resume sample_host True
       (processVideo playing no_faults (constant_random 0) loaded_world)"

definition in_flight_world :: world where
  "in_flight_world = runFrameCallback 1 playing no_faults (constant_random 0) pending_world"

section \<open>Properties of the aggregators\<close>



text \<open>
  C1. Both aggregators set the safe count to 1 when the batch has a detection of class
  Protective Helmet and a detection of class Safety Jacket, and to 0 otherwise; they set
  the violation count to 1 when the batch is not empty and the safe count is 0, and to 0
  otherwise.
\<close>

theorem aggregator_safe_violation:
  "safeWorkers (updateStats ds) =
     (if (\<exists>d \<in> set ds. class_name d = ''Protective Helmet'')
         \<and> (\<exists>d \<in> set ds. class_name d = ''Safety Jacket'') then 1 else 0)
   \<and> violations (updateStats ds) =
     (if totalDetections (updateStats ds) > 0 \<and> safeWorkers (updateStats ds) = 0 then 1 else 0)
   \<and> totalDetections (updateStats ds) = length ds
   \<and> safeWorkers_live (updateDetectionStats ds) =
     (if (\<exists>d \<in> set ds. class_name d = ''Protective Helmet'')
         \<and> (\<exists>d \<in> set ds. class_name d = ''Safety Jacket'') then 1 else 0)
   \<and> violations_live (updateDetectionStats ds) =
     (if totalDetections_live (updateDetectionStats ds) > 0
         \<and> safeWorkers_live (updateDetectionStats ds) = 0 then 1 else 0)
   \<and> totalDetections_live (updateDetectionStats ds) = length ds"
  by (simp add: updateStats_def updateDetectionStats_def some_class_def list_ex_iff Let_def)

theorem aggregator_safe_violation_witness:
  "safeWorkers (updateStats [helmet (9 / 10), jacket (8 / 10)]) = 1
   \<and> violations (updateStats [helmet (9 / 10), jacket (8 / 10)]) = 0
   \<and> safeWorkers_live (updateDetectionStats [helmet (1 / 2)]) = 0
   \<and> violations_live (updateDetectionStats [helmet (1 / 2)]) = 1"
  using aggregator_safe_violation [of "[helmet (9 / 10), jacket (8 / 10)]"]
        aggregator_safe_violation [of "[helmet (1 / 2)]"]
  by (simp add: helmet_def jacket_def)

text \<open>
  C4. For a batch without detections both aggregators yield the stats
  \<open>{0, 0, 0, 0}\<close>.
\<close>

theorem aggregator_empty_batch:
  "updateStats [] = \<lparr>totalDetections = 0, safeWorkers = 0, violations = 0, avgConfidence = 0\<rparr>
   \<and> updateDetectionStats [] =
       \<lparr>totalDetections_live = 0, safeWorkers_live = 0, violations_live = 0, confidence_pct = 0\<rparr>"
  by (simp add: updateStats_def updateDetectionStats_def some_class_def)




section \<open>Properties of the renderer\<close>

lemma length_drawDetection: "length (drawDetection h W H d i) = 8"
  by (simp add: drawDetection_def Let_def split: prod.splits)

lemma forEach_from_block:
  assumes len: "\<And>x k. length (f x k) = n"
  shows "i < length xs \<Longrightarrow> take n (drop (n * i) (forEach_from k f xs)) = f (xs ! i) (k + i)"
proof (induction xs arbitrary: k i)
  case Nil
  then show ?case by simp
next
  case (Cons x xs)
  show ?case
  proof (cases i)
    case 0
    then show ?thesis by (simp add: len)
  next
    case (Suc j)
    with Cons.prems have "j < length xs" by simp
    from Cons.IH [OF this, of "Suc k"] Suc show ?thesis
      by (simp add: len)
  qed
qed

lemma length_colors: "length colors = 7"
  by (simp add: colors_def)

text \<open>
  C7. The renderer draws the detection at position \<open>i\<close> of the batch with eight canvas
  operations. The box is scaled from the 640-unit working resolution to the canvas, each
  axis on its own: x and width are multiplied by \<open>canvasWidth / 640\<close>, y and height by
  \<open>canvasHeight / 640\<close>. The colour is the palette entry at \<open>i mod 7\<close>, the palette
  having 7 entries.
\<close>

theorem renderer_scale_and_color:
  assumes "i < length ds" and "bbox (ds ! i) = (x, y, width, height)"
  shows "take 8 (drop (8 * i) (drawDetections h ds W H)) =
           [SetStrokeStyle (colors ! (i mod 7)),
            SetLineWidth 3,
            StrokeRect (x * (W / 640)) (y * (H / 640)) (width * (W / 640)) (height * (H / 640)),
            SetFont ''14px Inter, sans-serif'',
            SetFillStyle (colors ! (i mod 7)),
            FillRect (x * (W / 640)) (y * (H / 640) - 25)
              (measureText h (class_name (ds ! i) @ '' (''
                 @ toFixed1 h (confidence (ds ! i) * 100) @ ''%)'') + 10) 25,
            SetFillStyle ''white'',
            FillText (class_name (ds ! i) @ '' ('' @ toFixed1 h (confidence (ds ! i) * 100) @ ''%)'')
              (x * (W / 640) + 5) (y * (H / 640) - 8)]
         \<and> length colors = 7
         \<and> length (drawDetections h ds W H) = 8 * length ds"
proof -
  have block: "take 8 (drop (8 * i) (drawDetections h ds W H)) = drawDetection h W H (ds ! i) i"
    unfolding drawDetections_def
    using forEach_from_block [of "drawDetection h W H" 8 i ds 0] assms(1)
    by (simp add: length_drawDetection)
  have len: "length (forEach_from k (drawDetection h W H) xs) = 8 * length xs" for k xs
    by (induction xs arbitrary: k) (simp_all add: length_drawDetection)
  have total: "length (drawDetections h ds W H) = 8 * length ds"
    by (simp add: drawDetections_def len)
  have one: "drawDetection h W H (ds ! i) i =
           [SetStrokeStyle (colors ! (i mod 7)),
            SetLineWidth 3,
            StrokeRect (x * (W / 640)) (y * (H / 640)) (width * (W / 640)) (height * (H / 640)),
            SetFont ''14px Inter, sans-serif'',
            SetFillStyle (colors ! (i mod 7)),
            FillRect (x * (W / 640)) (y * (H / 640) - 25)
              (measureText h (class_name (ds ! i) @ '' (''
                 @ toFixed1 h (confidence (ds ! i) * 100) @ ''%)'') + 10) 25,
            SetFillStyle ''white'',
            FillText (class_name (ds ! i) @ '' ('' @ toFixed1 h (confidence (ds ! i) * 100) @ ''%)'')
              (x * (W / 640) + 5) (y * (H / 640) - 8)]"
    using assms(2) by (simp add: drawDetection_def length_colors Let_def)
  from block one total length_colors show ?thesis
    by (simp only:)
qed

theorem renderer_scale_and_color_witness:
  "take 8 (drop 8 (drawDetections sample_host [helmet (1 / 2), jacket (1 / 2)] 1280 720)) =
     [SetStrokeStyle ''#10B981'',
      SetLineWidth 3,
      StrokeRect 20 (45 / 4) 120 (135 / 2),
      SetFont ''14px Inter, sans-serif'',
      SetFillStyle ''#10B981'',
      FillRect 20 (45 / 4 - 25) 157 25,
      SetFillStyle ''white'',
      FillText ''Safety Jacket (50.0%)'' 25 (45 / 4 - 8)]"
  using renderer_scale_and_color
          [of 1 "[helmet (1 / 2), jacket (1 / 2)]" 10 10 60 60 sample_host 1280 720]
  by (simp add: helmet_def jacket_def sample_host_def colors_def)

section \<open>Properties of binary64 rounding\<close>

subsection \<open>round_even\<close>

lemma round_even_cases:
  "round_even y = \<lfloor>y\<rfloor> \<or> round_even y = \<lfloor>y\<rfloor> + 1"
  by (simp add: round_even_def Let_def)

lemma round_even_error: "\<bar>of_int (round_even y) - y\<bar> \<le> 1 / 2"
proof -
  have "of_int \<lfloor>y\<rfloor> \<le> y" "y < of_int \<lfloor>y\<rfloor> + 1" by linarith+
  then show ?thesis
    by (auto simp add: round_even_def Let_def)
qed

lemma round_even_le: "y \<le> of_int k \<Longrightarrow> round_even y \<le> k"
proof -
  assume a: "y \<le> of_int k"
  then have f: "\<lfloor>y\<rfloor> \<le> k" by (simp add: floor_le_iff)
  show ?thesis
  proof (cases "\<lfloor>y\<rfloor> = k")
    case True
    with a have "y = of_int k" by linarith
    then show ?thesis by (simp add: round_even_def)
  next
    case False
    with f have "\<lfloor>y\<rfloor> + 1 \<le> k" by simp
    with round_even_cases [of y] f show ?thesis by auto
  qed
qed

lemma round_even_ge: "of_int k \<le> y \<Longrightarrow> k \<le> round_even y"
proof -
  assume "of_int k \<le> y"
  then have "k \<le> \<lfloor>y\<rfloor>" by (simp add: le_floor_iff)
  with round_even_cases [of y] show ?thesis by auto
qed

lemma round_even_of_int: "round_even (of_int k) = k"
  by (simp add: round_even_def)

lemma round_even_down: "of_int k \<le> y \<Longrightarrow> y < of_int k + 1 / 2 \<Longrightarrow> round_even y = k"
proof -
  assume a: "of_int k \<le> y" "y < of_int k + 1 / 2"
  then have "\<lfloor>y\<rfloor> = k" by linarith
  with a show ?thesis by (simp add: round_even_def Let_def)
qed

lemma round_even_tie_odd: "y = of_int k + 1 / 2 \<Longrightarrow> odd k \<Longrightarrow> round_even y = k + 1"
proof -
  assume a: "y = of_int k + 1 / 2" "odd k"
  then have "\<lfloor>y\<rfloor> = k" by linarith
  with a show ?thesis by (simp add: round_even_def Let_def)
qed

subsection \<open>ulp_of\<close>

lemma ulp_of_binade:
  "0 < x \<Longrightarrow> \<exists>e :: int. ulp_of x = 2 powr (of_int e - 52) \<and> 2 powr of_int e \<le> x \<and> x < 2 powr (of_int e + 1)"
proof (induction x rule: ulp_of.induct)
  case (1 x)
  show ?case
  proof (cases "2 \<le> x")
    case True
    with "1.prems" have "\<not> x \<le> 0" "0 < x / 2" by simp_all
    from "1.IH"(1) [OF this(1) True this(2)]
    obtain e :: int where e: "ulp_of (x / 2) = 2 powr (of_int e - 52)"
      "2 powr of_int e \<le> x / 2" "x / 2 < 2 powr (of_int e + 1)" by blast
    have u: "ulp_of x = 2 * ulp_of (x / 2)"
      using True "1.prems" by (subst ulp_of.simps) simp
    have "ulp_of x = 2 powr (of_int (e + 1) - 52) \<and> 2 powr of_int (e + 1) \<le> x
          \<and> x < 2 powr (of_int (e + 1) + 1)"
      using e u by (simp add: powr_add powr_diff)
    then show ?thesis by blast
  next
    case False
    show ?thesis
    proof (cases "x < 1")
      case True
      with "1.prems" False have c: "\<not> x \<le> 0" "\<not> 2 \<le> x" "x < 1" "0 < 2 * x" by simp_all
      from "1.IH"(2) [OF c]
      obtain e :: int where e: "ulp_of (2 * x) = 2 powr (of_int e - 52)"
        "2 powr of_int e \<le> 2 * x" "2 * x < 2 powr (of_int e + 1)" by blast
      have u: "ulp_of x = ulp_of (2 * x) / 2"
        using c by (subst ulp_of.simps) simp
      have "ulp_of x = 2 powr (of_int (e - 1) - 52) \<and> 2 powr of_int (e - 1) \<le> x
            \<and> x < 2 powr (of_int (e - 1) + 1)"
        using e u by (simp add: powr_add powr_diff)
      then show ?thesis by blast
    next
      case f2: False
      have u: "ulp_of x = 1 / 2 ^ 52"
        using False f2 "1.prems" by (subst ulp_of.simps) simp
      have "ulp_of x = 2 powr (of_int 0 - 52) \<and> 2 powr of_int 0 \<le> x \<and> x < 2 powr (of_int 0 + 1)"
        using False f2 u by (simp add: powr_minus inverse_eq_divide)
      then show ?thesis by blast
    qed
  qed
qed

lemma binade_unique:
  fixes e e' :: int and x :: real
  assumes "2 powr of_int e \<le> x" "x < 2 powr (of_int e + 1)"
    and "2 powr of_int e' \<le> x" "x < 2 powr (of_int e' + 1)"
  shows "e' = e"
proof -
  have "2 powr of_int e < (2::real) powr (of_int e' + 1)" using assms by linarith
  then have a: "e < e' + 1" by simp
  have "2 powr of_int e' < (2::real) powr (of_int e + 1)" using assms by linarith
  then have "e' < e + 1" by simp
  with a show ?thesis by simp
qed

lemma ulp_of_eq:
  fixes e :: int
  assumes "2 powr of_int e \<le> x" and "x < 2 powr (of_int e + 1)"
  shows "ulp_of x = 2 powr (of_int e - 52)"
proof -
  have "0 < x" using assms(1) powr_gt_zero [of 2 "of_int e"] by linarith
  from ulp_of_binade [OF this] obtain e' :: int where
    e': "ulp_of x = 2 powr (of_int e' - 52)" "2 powr of_int e' \<le> x" "x < 2 powr (of_int e' + 1)"
    by blast
  from binade_unique [OF assms e'(2,3)] e'(1) show ?thesis by simp
qed

lemma spacing_power:
  assumes "0 < x"
  shows "\<exists>g :: int. max (ulp_of x) (1 / 2 ^ 1074) = 2 powr of_int g \<and> - 1074 \<le> g
           \<and> (\<forall>j :: int. x < 2 powr (of_int j + 53) \<and> - 1074 \<le> j \<longrightarrow> g \<le> j)"
proof -
  from ulp_of_binade [OF assms] obtain e :: int where
    e: "ulp_of x = 2 powr (of_int e - 52)" "2 powr of_int e \<le> x" "x < 2 powr (of_int e + 1)"
    by blast
  let ?g = "max (e - 52) (- 1074)"
  have low: "(1::real) / 2 ^ 1074 = 2 powr of_int (- 1074)"
    by (simp add: powr_minus inverse_eq_divide)
  have "max (ulp_of x) (1 / 2 ^ 1074) = max (2 powr of_int (e - 52)) (2 powr of_int (- 1074))"
    using e(1) low by simp
  also have "\<dots> = 2 powr of_int ?g"
    by (cases "e - 52 \<le> - 1074") (simp_all add: max_def)
  finally have a: "max (ulp_of x) (1 / 2 ^ 1074) = 2 powr of_int ?g" .
  have b: "?g \<le> j" if "x < 2 powr (of_int j + 53)" and "- 1074 \<le> j" for j :: int
  proof -
    have "2 powr of_int e < (2::real) powr (of_int j + 53)" using e(2) that(1) by linarith
    then have "of_int e < (of_int j :: real) + 53" by simp
    then have "e < j + 53" by linarith
    with that(2) show ?thesis by simp
  qed
  from a b show ?thesis by (intro exI [of _ ?g]) auto
qed

lemma grid_multiple:
  fixes j :: int
  assumes "0 < x" and "x < 2 powr (of_int j + 53)" and "- 1074 \<le> j"
  shows "\<exists>K :: int. 2 powr of_int j = of_int K * max (ulp_of x) (1 / 2 ^ 1074)"
proof -
  from spacing_power [OF assms(1)] assms(2,3) obtain g :: int where
    g: "max (ulp_of x) (1 / 2 ^ 1074) = 2 powr of_int g" "g \<le> j" by blast
  have "(2::real) powr of_int j = 2 powr of_int (j - g) * 2 powr of_int g"
    by (simp add: powr_add [symmetric])
  also have "(2::real) powr of_int (j - g) = of_int (2 ^ nat (j - g))"
    using g(2) by (subst powr_real_of_int) simp_all
  finally show ?thesis using g(1) by auto
qed

lemma spacing_pos: "0 < max (ulp_of x) (1 / 2 ^ 1074)"
  by (simp add: less_max_iff_disj)

lemma fl_nonneg: "0 \<le> x \<Longrightarrow> 0 \<le> fl x"
proof -
  assume x: "0 \<le> x"
  have "0 \<le> x / max (ulp_of \<bar>x\<bar>) (1 / 2 ^ 1074)"
    using x spacing_pos [of "\<bar>x\<bar>"] by simp
  then have "of_int 0 \<le> x / max (ulp_of \<bar>x\<bar>) (1 / 2 ^ 1074)" by simp
  then have "0 \<le> round_even (x / max (ulp_of \<bar>x\<bar>) (1 / 2 ^ 1074))" by (rule round_even_ge)
  then show ?thesis
    using spacing_pos [of "\<bar>x\<bar>"] by (simp add: fl_def Let_def)
qed

lemma fl_le:
  fixes n j :: int
  assumes "0 \<le> x" and "x \<le> d" and d: "d = of_int n * 2 powr of_int j"
    and n: "n < 2 ^ 53" and j: "- 1074 \<le> j"
  shows "fl x \<le> d"
proof (cases "x = 0")
  case True
  with assms(1,2) show ?thesis by (simp add: fl_def)
next
  case False
  with assms(1) have pos: "0 < x" by simp
  let ?u = "max (ulp_of x) (1 / 2 ^ 1074)"
  have "of_int n < (2::real) ^ 53" using n by (metis of_int_less_numeral_power_cancel_iff)
  then have "d < 2 ^ 53 * 2 powr of_int j" using d by simp
  also have "\<dots> = 2 powr (of_int j + 53)" by (simp add: powr_add)
  finally have "x < 2 powr (of_int j + 53)" using assms(2) by simp
  from grid_multiple [OF pos this j] obtain K :: int where K: "2 powr of_int j = of_int K * ?u"
    by blast
  have u: "0 < ?u" by (rule spacing_pos)
  have dK: "d = of_int (n * K) * ?u" using d K by simp
  have "x / ?u \<le> of_int (n * K)" using assms(2) dK u by (simp add: field_simps)
  then have "round_even (x / ?u) \<le> n * K" by (rule round_even_le)
  then have "of_int (round_even (x / ?u)) * ?u \<le> of_int (n * K) * ?u"
    using u by (simp del: of_int_mult)
  with dK pos show ?thesis by (simp add: fl_def Let_def)
qed

lemma fl_ge:
  fixes n j :: int
  assumes "0 < d" and "d \<le> x" and d: "d = of_int n * 2 powr of_int j"
    and x: "x < 2 powr (of_int j + 53)" and j: "- 1074 \<le> j"
  shows "d \<le> fl x"
proof -
  from assms(1,2) have pos: "0 < x" by simp
  let ?u = "max (ulp_of x) (1 / 2 ^ 1074)"
  from grid_multiple [OF pos x j] obtain K :: int where K: "2 powr of_int j = of_int K * ?u"
    by blast
  have u: "0 < ?u" by (rule spacing_pos)
  have dK: "d = of_int (n * K) * ?u" using d K by simp
  have "of_int (n * K) \<le> x / ?u" using assms(2) dK u by (simp add: field_simps)
  then have "n * K \<le> round_even (x / ?u)" by (rule round_even_ge)
  then have "of_int (n * K) * ?u \<le> of_int (round_even (x / ?u)) * ?u"
    using u by (simp del: of_int_mult)
  with dK pos show ?thesis by (simp add: fl_def Let_def)
qed

lemma fl_eval:
  fixes e :: int
  assumes "2 powr of_int e \<le> x" and "x < 2 powr (of_int e + 1)" and "- 1022 \<le> e"
  shows "fl x = of_int (round_even (x / 2 powr (of_int e - 52))) * 2 powr (of_int e - 52)"
proof -
  have pos: "0 < x" using assms(1) powr_gt_zero [of 2 "of_int e"] by linarith
  have low: "(1::real) / 2 ^ 1074 = 2 powr of_int (- 1074)"
    by (simp add: powr_minus inverse_eq_divide)
  have "(2::real) powr of_int (- 1074) \<le> 2 powr (of_int e - 52)"
    using assms(3) by simp
  with low have le: "(1::real) / 2 ^ 1074 \<le> 2 powr (of_int e - 52)"
    by (simp only:)
  have "max (ulp_of x) (1 / 2 ^ 1074) = 2 powr (of_int e - 52)"
    unfolding ulp_of_eq [OF assms(1,2)] using le by (rule max_absorb1)
  with pos show ?thesis by (simp add: fl_def Let_def)
qed

lemma fl_error:
  fixes e :: int
  assumes "2 powr of_int e \<le> x" and "x < 2 powr (of_int e + 1)" and "- 1022 \<le> e"
  shows "\<bar>fl x - x\<bar> \<le> 2 powr (of_int e - 53)"
proof -
  let ?u = "(2::real) powr (of_int e - 52)"
  have u: "0 < ?u" by simp
  have "fl x - x = (of_int (round_even (x / ?u)) - x / ?u) * ?u"
    using fl_eval [OF assms] by (simp add: field_simps)
  then have "\<bar>fl x - x\<bar> = \<bar>of_int (round_even (x / ?u)) - x / ?u\<bar> * ?u"
    by (simp add: abs_mult)
  also have "\<dots> \<le> 1 / 2 * ?u"
    using round_even_error [of "x / ?u"] u by (intro mult_right_mono) simp_all
  also have "\<dots> = 2 powr (of_int e - 53)"
    by (simp add: powr_diff)
  finally show ?thesis .
qed

lemma fl_representable:
  fixes n j :: int
  assumes "0 < n" and "n < 2 ^ 53" and "- 1074 \<le> j"
  shows "fl (of_int n * 2 powr of_int j) = of_int n * 2 powr of_int j"
proof -
  let ?d = "of_int n * (2::real) powr of_int j"
  have pos: "0 < ?d" using assms(1) by simp
  have "of_int n < (2::real) ^ 53" using assms(2) by (metis of_int_less_numeral_power_cancel_iff)
  then have "?d < 2 ^ 53 * 2 powr of_int j" by simp
  also have "\<dots> = 2 powr (of_int j + 53)" by (simp add: powr_add)
  finally have lt: "?d < 2 powr (of_int j + 53)" .
  have "fl ?d \<le> ?d" using pos assms(2,3) by (intro fl_le [where n = n and j = j]) simp_all
  moreover have "?d \<le> fl ?d" using pos lt assms(3) by (intro fl_ge [where n = n and j = j]) simp_all
  ultimately show ?thesis by simp
qed

lemma double_below_one:
  assumes "is_double r" and "r < 1"
  shows "r \<le> 1 - 1 / 2 ^ 53"
proof (cases "r < 1 / 2")
  case True
  then show ?thesis by simp
next
  case False
  then have lo: "2 powr of_int (- 1) \<le> r" by (simp add: powr_minus)
  have hi: "r < 2 powr (of_int (- 1) + 1)" using assms(2) by simp
  let ?K = "round_even (r / 2 powr (of_int (- 1) - 52))"
  have "fl r = of_int ?K * 2 powr (of_int (- 1) - 52)"
    using lo hi by (rule fl_eval) simp
  then have r: "r = of_int ?K / 2 ^ 53"
    using assms(1) by (simp add: is_double_def powr_minus field_simps)
  with assms(2) have "of_int ?K < (2::real) ^ 53" by (simp add: field_simps)
  then have "?K < 2 ^ 53" by (metis of_int_less_numeral_power_cancel_iff)
  then have "?K \<le> 2 ^ 53 - 1" by simp
  then have "(of_int ?K :: real) \<le> of_int (2 ^ 53 - 1)" by (simp only: of_int_le_iff)
  then have "(of_int ?K :: real) \<le> 2 ^ 53 - 1" by simp
  then have "of_int ?K / 2 ^ 53 \<le> ((2::real) ^ 53 - 1) / 2 ^ 53"
    by (simp add: divide_right_mono)
  then show ?thesis by (subst r) (simp add: field_simps)
qed

lemma fl_less:
  fixes e :: int
  assumes "0 \<le> x" and "x < 2 powr (of_int e + 1)" and "- 1022 \<le> e"
    and "x + 2 powr (of_int e - 53) < B" and "2 powr of_int e < B"
  shows "fl x < B"
proof (cases "x < 2 powr of_int e")
  case True
  have "fl x \<le> 2 powr of_int e"
    using assms(1) True assms(3) by (intro fl_le [where n = 1 and j = e]) simp_all
  with assms(5) show ?thesis by simp
next
  case False
  then have "2 powr of_int e \<le> x" by simp
  from fl_error [OF this assms(2,3)] assms(4) show ?thesis by linarith
qed

section \<open>Properties of the detector\<close>

text \<open>
  C8. \<open>loadModel\<close> never throws: for every model path and every outcome of building the
  model it returns a boolean, \<open>true\<close> when the model was built and \<open>false\<close> when
  building it failed. Afterwards \<open>isLoaded\<close> tells whether a model is present: it is
  true after a success, and after a failure it is what it was before.
\<close>

theorem loadModel_returns_boolean:
  "fst (loadModel d modelPath created) = Inr (\<not> isl created)
   \<and> isLoaded (fst (snd (loadModel d modelPath created)))
       = (model (fst (snd (loadModel d modelPath created))) \<noteq> None)
   \<and> isLoaded (fst (snd (loadModel d modelPath created)))
       = (if isl created then isLoaded d else True)"
  by (cases created) (simp_all add: loadModel_def loadModel_try_def isLoaded_def)

theorem loadModel_returns_boolean_witness:
  "fst (loadModel \<lparr>model = None\<rparr> ''/models/best.pt'' (Inr 0)) = Inr True
   \<and> isLoaded (fst (snd (loadModel \<lparr>model = None\<rparr> ''/models/best.pt'' (Inr 0))))
   \<and> fst (loadModel \<lparr>model = None\<rparr> ''/models/best.pt'' (Inl ''out of memory'')) = Inr False
   \<and> \<not> isLoaded (fst (snd (loadModel \<lparr>model = None\<rparr> ''/models/best.pt'' (Inl ''out of memory''))))"
  using loadModel_returns_boolean [of "\<lparr>model = None\<rparr>" "''/models/best.pt''" "Inr 0"]
        loadModel_returns_boolean [of "\<lparr>model = None\<rparr>" "''/models/best.pt''" "Inl ''out of memory''"]
  by (simp add: isLoaded_def)

lemma classNames_at_member:
  assumes "0 \<le> k" and "k < 7"
  shows "classNames_at k \<in> set classNames"
proof -
  have len: "length classNames = 7" by (simp add: classNames_def)
  from assms have "nat k < length classNames" by (simp add: len nat_less_iff)
  then have "classNames ! nat k \<in> set classNames" by (rule nth_mem)
  with assms show ?thesis by (simp add: classNames_at_def len)
qed

lemma random_range:
  assumes "is_double r" and "0 \<le> r" and "r < 1"
  shows "0 \<le> \<lfloor>fl (r * 4)\<rfloor>" and "\<lfloor>fl (r * 4)\<rfloor> < 4"
    and "0 \<le> \<lfloor>fl (r * 7)\<rfloor>" and "\<lfloor>fl (r * 7)\<rfloor> < 7"
    and "1 / 2 \<le> fl (1 / 2 + fl (r * (1 / 2)))" and "fl (1 / 2 + fl (r * (1 / 2))) \<le> 1"
    and "0 \<le> fl (r * 400)" and "fl (r * 400) < 400"
    and "0 \<le> fl (r * 300)" and "fl (r * 300) < 300"
    and "50 \<le> fl (50 + fl (r * 100))" and "fl (50 + fl (r * 100)) \<le> 150"
proof -
  from double_below_one [OF assms(1,3)] have top: "r \<le> 1 - 1 / 2 ^ 53" .
  have p52: "(2::real) powr (- 52) = 1 / 2 ^ 52"
    and p51: "(2::real) powr (- 51) = 1 / 2 ^ 51"
    and p45: "(2::real) powr (- 45) = 1 / 2 ^ 45"
    by (simp_all add: powr_minus inverse_eq_divide)
  show "0 \<le> \<lfloor>fl (r * 4)\<rfloor>" using fl_nonneg [of "r * 4"] assms(2) by simp
  have "fl (r * 4) < 4"
    using assms(2) top by (intro fl_less [where e = 1]) (simp_all add: p52)
  then show "\<lfloor>fl (r * 4)\<rfloor> < 4" by (simp add: floor_less_iff)
  show "0 \<le> \<lfloor>fl (r * 7)\<rfloor>" using fl_nonneg [of "r * 7"] assms(2) by simp
  have "fl (r * 7) < 7"
    using assms(2) top by (intro fl_less [where e = 2]) (simp_all add: p51)
  then show "\<lfloor>fl (r * 7)\<rfloor> < 7" by (simp add: floor_less_iff)
  show "0 \<le> fl (r * 400)" using fl_nonneg [of "r * 400"] assms(2) by simp
  show "fl (r * 400) < 400"
    using assms(2) top by (intro fl_less [where e = 8]) (simp_all add: p45)
  show "0 \<le> fl (r * 300)" using fl_nonneg [of "r * 300"] assms(2) by simp
  show "fl (r * 300) < 300"
    using assms(2) top by (intro fl_less [where e = 8]) (simp_all add: p45)
  have h0: "0 \<le> fl (r * (1 / 2))" using fl_nonneg [of "r * (1 / 2)"] assms(2) by simp
  have h1: "fl (r * (1 / 2)) \<le> 1 / 2"
    using assms(2,3) by (intro fl_le [where n = 1 and j = "- 1"]) (simp_all add: powr_minus)
  show "1 / 2 \<le> fl (1 / 2 + fl (r * (1 / 2)))"
    using h0 h1 by (intro fl_ge [where n = 1 and j = "- 1"]) (simp_all add: powr_minus)
  show "fl (1 / 2 + fl (r * (1 / 2))) \<le> 1"
    using h0 h1 by (intro fl_le [where n = 1 and j = 0]) simp_all
  have w0: "0 \<le> fl (r * 100)" using fl_nonneg [of "r * 100"] assms(2) by simp
  have w1: "fl (r * 100) \<le> 100"
    using assms(2,3) by (intro fl_le [where n = 25 and j = 2]) simp_all
  show "50 \<le> fl (50 + fl (r * 100))"
    using w0 w1 by (intro fl_ge [where n = 25 and j = 1]) simp_all
  show "fl (50 + fl (r * 100)) \<le> 150"
    using w0 w1 by (intro fl_le [where n = 75 and j = 1]) simp_all
qed

lemma mockLoop_range:
  assumes rand: "\<And>n. is_double (rand n) \<and> 0 \<le> rand n \<and> rand n < 1"
  shows "k = nat (n - i) \<Longrightarrow> i \<le> n \<Longrightarrow> \<forall>d \<in> set acc. in_rounded_range d \<Longrightarrow>
         length (fst (mockLoop rand p i n acc)) = length acc + nat (n - i)
         \<and> (\<forall>d \<in> set (fst (mockLoop rand p i n acc)). in_rounded_range d)"
proof (induction k arbitrary: p i acc)
  case 0
  then have "\<not> i < n" by simp
  then have "mockLoop rand p i n acc = (acc, p)"
    by (subst mockLoop.simps) simp
  with 0 show ?case by simp
next
  case (Suc k)
  then have less: "i < n" by simp
  let ?det = "\<lparr>bbox = (fl (rand (p + 2) * 400), fl (rand (p + 3) * 300),
                       fl (50 + fl (rand (p + 4) * 100)), fl (50 + fl (rand (p + 5) * 100))),
               class_name = classNames_at \<lfloor>fl (rand p * real (length classNames))\<rfloor>,
               confidence = fl (0.5 + fl (rand (p + 1) * 0.5))\<rparr>"
  have len: "length classNames = 7" by (simp add: classNames_def)
  have cls: "classNames_at \<lfloor>fl (rand p * real (length classNames))\<rfloor> \<in> set classNames"
    using rand [of p] random_range(3,4) [of "rand p"] classNames_at_member
    by (simp add: len)
  have ok: "in_rounded_range ?det"
    using rand [of "p + 1"] rand [of "p + 2"] rand [of "p + 3"] rand [of "p + 4"]
          rand [of "p + 5"] cls
          random_range(5,6) [of "rand (p + 1)"]
          random_range(7,8) [of "rand (p + 2)"]
          random_range(9,10) [of "rand (p + 3)"]
          random_range(11,12) [of "rand (p + 4)"]
          random_range(11,12) [of "rand (p + 5)"]
    by (simp add: in_rounded_range_def)
  have step: "mockLoop rand p i n acc = mockLoop rand (p + 6) (i + 1) n (acc @ [?det])"
    using less by (subst mockLoop.simps) (simp add: Let_def)
  have "k = nat (n - (i + 1))" using Suc.prems(1) by simp
  moreover have "i + 1 \<le> n" using less by simp
  moreover have "\<forall>d \<in> set (acc @ [?det]). in_rounded_range d"
    using Suc.prems(3) ok by simp
  ultimately have
    "length (fst (mockLoop rand (p + 6) (i + 1) n (acc @ [?det])))
       = length (acc @ [?det]) + nat (n - (i + 1))
     \<and> (\<forall>d \<in> set (fst (mockLoop rand (p + 6) (i + 1) n (acc @ [?det]))). in_rounded_range d)"
    by (rule Suc.IH)
  with less show ?case
    by (simp add: step nat_diff_distrib')
qed

lemma generateMockDetections_range:
  assumes rand: "\<And>n. is_double (rand n) \<and> 0 \<le> rand n \<and> rand n < 1"
  shows "1 \<le> length (fst (generateMockDetections rand p))
         \<and> length (fst (generateMockDetections rand p)) \<le> 4
         \<and> (\<forall>d \<in> set (fst (generateMockDetections rand p)). in_rounded_range d)"
proof -
  have lo: "0 \<le> \<lfloor>fl (rand p * 4)\<rfloor>" and hi: "\<lfloor>fl (rand p * 4)\<rfloor> < 4"
    using rand [of p] random_range(1,2) [of "rand p"] by simp_all
  have "length (fst (mockLoop rand (p + 1) 0 (\<lfloor>fl (rand p * 4)\<rfloor> + 1) []))
          = length ([] :: detection list) + nat (\<lfloor>fl (rand p * 4)\<rfloor> + 1 - 0)
        \<and> (\<forall>d \<in> set (fst (mockLoop rand (p + 1) 0 (\<lfloor>fl (rand p * 4)\<rfloor> + 1) [])).
              in_rounded_range d)"
    using lo by (intro mockLoop_range [OF rand refl]) simp_all
  moreover from lo hi have
    "1 \<le> nat (\<lfloor>fl (rand p * 4)\<rfloor> + 1 - 0) \<and> nat (\<lfloor>fl (rand p * 4)\<rfloor> + 1 - 0) \<le> 4"
    by linarith
  ultimately show ?thesis
    by (simp add: generateMockDetections_def Let_def)
qed

lemma is_double_half: "is_double (1 / 2)"
  using fl_representable [of 1 "- 1"] by (simp add: is_double_def powr_minus)

lemma fl_zero: "fl 0 = 0"
  by (simp add: fl_def)

lemma fl_half: "fl (1 / 2) = 1 / 2"
  using is_double_half by (simp add: is_double_def)

lemma fl_fifty: "fl 50 = 50"
  using fl_representable [of 25 1] by simp

lemma fl_down:
  fixes e k :: int
  assumes "2 powr of_int e \<le> x" and "x < 2 powr (of_int e + 1)" and "- 1022 \<le> e"
    and "of_int k \<le> x / 2 powr (of_int e - 52)"
    and "x / 2 powr (of_int e - 52) < of_int k + 1 / 2"
  shows "fl x = of_int k * 2 powr (of_int e - 52)"
  using fl_eval [OF assms(1-3)] round_even_down [OF assms(4,5)] by simp

lemma fl_tie_odd:
  fixes e k :: int
  assumes "2 powr of_int e \<le> x" and "x < 2 powr (of_int e + 1)" and "- 1022 \<le> e"
    and "x / 2 powr (of_int e - 52) = of_int k + 1 / 2" and "odd k"
  shows "fl x = of_int (k + 1) * 2 powr (of_int e - 52)"
  using fl_eval [OF assms(1-3)] round_even_tie_odd [OF assms(4,5)] by simp

lemma below_one_double: "is_double below_one \<and> 0 \<le> below_one \<and> below_one < 1"
  using fl_representable [of "2 ^ 53 - 1" "- 53"]
  by (simp add: is_double_def below_one_def powr_minus field_simps)

lemma edge_count: "fl (below_one * 4) = 4 - 1 / 2 ^ 51"
  using fl_representable [of "2 ^ 53 - 1" "- 51"]
  by (simp add: below_one_def powr_minus field_simps)

lemma edge_class: "fl (below_one * 7) = 7 - 1 / 2 ^ 50"
  using fl_down [of 2 "below_one * 7" "7 * 2 ^ 50 - 1"]
  by (simp add: below_one_def powr_minus field_simps)

lemma edge_half: "fl (below_one / 2) = 1 / 2 - 1 / 2 ^ 54"
  using fl_representable [of "2 ^ 53 - 1" "- 54"]
  by (simp add: below_one_def powr_minus field_simps)

lemma edge_confidence: "fl (1 / 2 + (1 / 2 - 1 / 2 ^ 54)) = 1"
  using fl_tie_odd [of "- 1" "1 / 2 + (1 / 2 - 1 / 2 ^ 54)" "2 ^ 53 - 1"]
  by (simp add: powr_minus field_simps)

lemma edge_x: "fl (below_one * 400) = 400 - 1 / 2 ^ 44"
  using fl_down [of 8 "below_one * 400" "400 * 2 ^ 44 - 1"]
  by (simp add: below_one_def powr_minus field_simps)

lemma edge_y: "fl (below_one * 300) = 300 - 1 / 2 ^ 44"
  using fl_down [of 8 "below_one * 300" "300 * 2 ^ 44 - 1"]
  by (simp add: below_one_def powr_minus field_simps)

lemma edge_hundred: "fl (below_one * 100) = 100 - 1 / 2 ^ 46"
  using fl_down [of 6 "below_one * 100" "100 * 2 ^ 46 - 1"]
  by (simp add: below_one_def powr_minus field_simps)

lemma edge_width: "fl (50 + (100 - 1 / 2 ^ 46)) = 150"
  using fl_tie_odd [of 7 "50 + (100 - 1 / 2 ^ 46)" "150 * 2 ^ 45 - 1"]
  by (simp add: powr_minus field_simps)

lemma edge_confidence_numeral: "fl (18014398509481983 / 18014398509481984) = 1"
  using edge_confidence by simp

lemma edge_width_numeral: "fl (10555311626649599 / 70368744177664) = 150"
  using edge_width by simp

lemma detect_below_one:
  "detect \<lparr>model = Some m\<rparr> no_faults (constant_random below_one) 0
     = (Inr [edge_detection, edge_detection, edge_detection, edge_detection], 25, [])"
  by (simp add: detect_def no_faults_def generateMockDetections_def constant_random_def
      mockLoop.simps classNames_at_def classNames_def edge_detection_def
      edge_count edge_class edge_half edge_x edge_y edge_hundred
      edge_confidence_numeral edge_width_numeral)

text \<open>
  C10, as stated: with a model loaded, a successful \<open>detect\<close> call returns 1 to 4
  detections, each with its confidence in \<open>[0.5, 1)\<close> and its width and height in
  \<open>[50, 150)\<close>. When \<open>Math.random()\<close> returns the largest binary64 number below 1,
  \<open>1 - 2^-53\<close>, the sum \<open>0.5 + r * 0.5\<close> is \<open>1 - 2^-54\<close>, half way between
  two binary64 numbers, and rounds to \<open>1\<close>; in the same way \<open>50 + r * 100\<close> rounds
  to \<open>150\<close>. The batch then holds four detections of confidence 1 and of width and
  height 150.
\<close>

theorem detect_mock_batch_counterexample:
  "model \<lparr>model = Some 0\<rparr> \<noteq> None
   \<and> fromPixels_fault no_faults = None \<and> dispose_fault no_faults = None
   \<and> is_double (constant_random below_one 0)
   \<and> 0 \<le> constant_random below_one 0 \<and> constant_random below_one 0 < 1
   \<and> fst (detect \<lparr>model = Some 0\<rparr> no_faults (constant_random below_one) 0)
       = Inr [edge_detection, edge_detection, edge_detection, edge_detection]
   \<and> confidence edge_detection = 1
   \<and> bbox edge_detection = (400 - 1 / 2 ^ 44, 300 - 1 / 2 ^ 44, 150, 150)
   \<and> \<not> confidence edge_detection < 1
   \<and> \<not> in_mock_range edge_detection"
proof -
  have out: "fst (detect \<lparr>model = Some 0\<rparr> no_faults (constant_random below_one) 0)
       = Inr [edge_detection, edge_detection, edge_detection, edge_detection]"
    by (simp add: detect_below_one)
  have rand: "is_double (constant_random below_one 0)
       \<and> 0 \<le> constant_random below_one 0 \<and> constant_random below_one 0 < 1"
    using below_one_double by (simp add: constant_random_def)
  have faults: "fromPixels_fault no_faults = None \<and> dispose_fault no_faults = None"
    by (simp add: no_faults_def)
  have edge: "confidence edge_detection = 1
       \<and> bbox edge_detection = (400 - 1 / 2 ^ 44, 300 - 1 / 2 ^ 44, 150, 150)
       \<and> \<not> confidence edge_detection < 1
       \<and> \<not> in_mock_range edge_detection"
    by (simp add: edge_detection_def in_mock_range_def)
  from out rand faults edge show ?thesis
    by simp
qed

text \<open>
  C10, amended: with a model loaded and no fault in its \<open>try\<close> block, \<open>detect\<close>
  returns a batch of at least 1 and at most 4 detections when every value of
  \<open>Math.random()\<close> is a binary64 number in \<open>[0, 1)\<close>; each detection has its
  confidence in the closed interval \<open>[0.5, 1]\<close>, its class among the seven class names,
  x in \<open>[0, 400)\<close>, y in \<open>[0, 300)\<close>, and width and height in the closed interval
  \<open>[50, 150]\<close>. In particular the batch is not empty.
\<close>

theorem detect_mock_batch:
  assumes "model d \<noteq> None"
    and "fromPixels_fault faults = None" and "dispose_fault faults = None"
    and "\<forall>n. is_double (rand n) \<and> 0 \<le> rand n \<and> rand n < 1"
  shows "\<exists>ds. fst (detect d faults rand p) = Inr ds
           \<and> ds \<noteq> [] \<and> 1 \<le> length ds \<and> length ds \<le> 4
           \<and> (\<forall>x \<in> set ds. in_rounded_range x)
           \<and> length classNames = 7"
proof -
  from assms(4) have rand: "\<And>n. is_double (rand n) \<and> 0 \<le> rand n \<and> rand n < 1" by blast
  have out: "fst (detect d faults rand p) = Inr (fst (generateMockDetections rand p))"
    using assms(1-3) by (simp add: detect_def split: prod.splits)
  have "length classNames = 7" by (simp add: classNames_def)
  moreover note out generateMockDetections_range [where rand = rand and p = p, OF rand]
  ultimately show ?thesis
    by auto
qed

theorem detect_mock_batch_witness:
  "model \<lparr>model = Some 0\<rparr> \<noteq> None
   \<and> fromPixels_fault no_faults = None \<and> dispose_fault no_faults = None
   \<and> (\<forall>n. is_double (constant_random (1 / 2) n)
          \<and> 0 \<le> constant_random (1 / 2) n \<and> constant_random (1 / 2) n < 1)
   \<and> (\<exists>ds. fst (detect \<lparr>model = Some 0\<rparr> no_faults (constant_random (1 / 2)) 0) = Inr ds
           \<and> ds \<noteq> [] \<and> 1 \<le> length ds \<and> length ds \<le> 4
           \<and> (\<forall>x \<in> set ds. in_rounded_range x)
           \<and> length classNames = 7)"
  using detect_mock_batch [of "\<lparr>model = Some 0\<rparr>" no_faults "constant_random (1 / 2)" 0]
  by (simp add: no_faults_def constant_random_def is_double_half)

section \<open>Properties of the webcam hook\<close>

lemma foldl_stop_track:
  "foldl stop_track ts stream t = (if t \<in> set stream then Ended else ts t)"
  by (induction stream arbitrary: ts) (simp_all add: stop_track_def)

text \<open>
  C9. When the hook holds a stream, \<open>stopWebcam\<close> stops every track of the stream;
  afterwards the stream reference is cleared, \<open>isActive\<close> is false and \<open>error\<close>
  is null. Nothing in \<open>stopWebcam\<close> depends on the pipeline.
\<close>

theorem stopWebcam_releases_tracks:
  assumes "streamRef w = Some stream"
  shows "(\<forall>track \<in> set stream. tracks (stopWebcam w) track = Ended)
         \<and> streamRef (stopWebcam w) = None
         \<and> \<not> isActive (stopWebcam w)
         \<and> error (stopWebcam w) = None"
  using assms by (simp add: stopWebcam_def foldl_stop_track)

theorem stopWebcam_releases_tracks_witness:
  "streamRef two_tracks = Some [0, 1]
   \<and> tracks (stopWebcam two_tracks) 0 = Ended
   \<and> tracks (stopWebcam two_tracks) 1 = Ended
   \<and> streamRef (stopWebcam two_tracks) = None
   \<and> \<not> isActive (stopWebcam two_tracks)
   \<and> error (stopWebcam two_tracks) = None"
  using stopWebcam_releases_tracks [of two_tracks "[0, 1]"]
  by (simp add: two_tracks_def)

section \<open>Properties of the frame pipeline\<close>

lemma detect_constant_zero:
  "detect \<lparr>model = Some m\<rparr> no_faults (constant_random 0) p = (Inr [helmet (1 / 2)], p + 7, [])"
  by (simp add: detect_def no_faults_def generateMockDetections_def constant_random_def
      mockLoop.simps classNames_at_def classNames_def helmet_def fl_zero fl_half fl_fifty)

lemma filter_invocation_Canvas: "filter is_invocation (map Canvas ops) = []"
  by (induction ops) simp_all

lemma filter_invocation_ConsoleError: "filter is_invocation (map ConsoleError es) = []"
  by (induction es) simp_all

lemma stats_after_append: "stats_after s (xs @ ys) = stats_after (stats_after s xs) ys"
  by (induction s xs rule: stats_after.induct) simp_all

lemma stats_after_Canvas: "stats_after s (map Canvas ops) = s"
  by (induction ops) simp_all

lemma stats_after_ConsoleError: "stats_after s (map ConsoleError es) = s"
  by (induction es) simp_all

lemma pending_world_eq:
  "animationId pending_world = Some 1 \<and> frameRequests pending_world = [1]
   \<and> awaited pending_world = [] \<and> lastHandle pending_world = 1
   \<and> canvasWidth pending_world = 1280 \<and> canvasHeight pending_world = 720
   \<and> yoloDetector pending_world = \<lparr>model = Some 0\<rparr> \<and> randomPos pending_world = 7
   \<and> filter is_invocation (trace pending_world)
       = [DrawDetectionsCalled [helmet (1 / 2)] 1280 720, OnDetection [helmet (1 / 2)]]"
  by (simp add: pending_world_def processVideo_def processFrame_start_def
      processFrame_resume_def playing_def loaded_world_def detect_constant_zero
      requestAnimationFrame_def filter_invocation_Canvas)

lemma in_flight_world_eq:
  "animationId in_flight_world = Some 1 \<and> frameRequests in_flight_world = []
   \<and> awaited in_flight_world = [Inr [helmet (1 / 2)]] \<and> lastHandle in_flight_world = 1
   \<and> canvasWidth in_flight_world = 1280 \<and> canvasHeight in_flight_world = 720
   \<and> filter is_invocation (trace in_flight_world)
       = [DrawDetectionsCalled [helmet (1 / 2)] 1280 720, OnDetection [helmet (1 / 2)]]"
  by (simp add: in_flight_world_def runFrameCallback_def processFrame_start_def
      pending_world_eq playing_def detect_constant_zero)

lemma detect_pixel_fault:
  "detect \<lparr>model = Some m\<rparr> pixel_fault rand p = (Inr [], p, [''Detection error: no pixels''])"
  by (simp add: detect_def pixel_fault_def)

lemma drawDetections_empty: "drawDetections h [] W H = []"
  by (simp add: drawDetections_def)

lemma detect_cases:
  "model d = None \<Longrightarrow> detect d faults rand p = (Inl ''Model not loaded'', p, [])"
  "model d \<noteq> None \<Longrightarrow> fromPixels_fault faults = Some e \<Longrightarrow>
     detect d faults rand p = (Inr [], p, [''Detection error: '' @ e])"
  "model d \<noteq> None \<Longrightarrow> fromPixels_fault faults = None \<Longrightarrow> dispose_fault faults = Some e \<Longrightarrow>
     detect d faults rand p
       = (Inr [], snd (generateMockDetections rand p), [''Detection error: '' @ e])"
  by (simp_all add: detect_def split: prod.splits)

lemma processFrame_trace:
  assumes "\<not> paused v" and "\<not> ended v" and "awaited w = []"
    and "detect (yoloDetector w) faults rand (randomPos w) = (result, p', errors)"
  shows "trace (processFrame h True v faults rand w) =
           trace w
           @ [Canvas (DrawImage 0 0 (real (if videoWidth v = 0 then 640 else videoWidth v))
                                   (real (if videoHeight v = 0 then 480 else videoHeight v))),
              DetectCalled]
           @ map ConsoleError errors
           @ (case result of
                Inr detections \<Rightarrow>
                  DrawDetectionsCalled detections
                    (real (if videoWidth v = 0 then 640 else videoWidth v))
                    (real (if videoHeight v = 0 then 480 else videoHeight v))
                  # map Canvas (drawDetections h detections
                    (real (if videoWidth v = 0 then 640 else videoWidth v))
                    (real (if videoHeight v = 0 then 480 else videoHeight v)))
                  @ [OnDetection detections]
              | Inl err \<Rightarrow> [ConsoleError (''Detection error: '' @ err)])"
    and "frameRequests (processFrame h True v faults rand w) = frameRequests w @ [Suc (lastHandle w)]"
    and "animationId (processFrame h True v faults rand w) = Some (Suc (lastHandle w))"
    and "awaited (processFrame h True v faults rand w) = []"
  using assms
  by (simp_all add: processFrame_def processFrame_start_def processFrame_resume_def
      requestAnimationFrame_def Let_def split: sum.splits)

text \<open>
  C3, as stated: after \<open>stopProcessing\<close> an in-flight \<open>detect\<close> call that
  resolves causes no invocation of the renderer or of the aggregator callback, and no
  further tick is scheduled. In \<open>in_flight_world\<close> the second \<open>detect\<close> call of a
  run is in flight. \<open>stopProcessing\<close> clears \<open>animationId\<close> there (cancelling a
  request that has already run), and the continuation of \<open>processFrame\<close> then calls
  \<open>drawDetections\<close> and \<open>onDetection\<close> with the result and requests frame 2.
\<close>

theorem stop_in_flight_counterexample:
  "animationId in_flight_world = Some 1
   \<and> awaited in_flight_world = [Inr [helmet (1 / 2)]]
   \<and> animationId (stopProcessing in_flight_world) = None
   \<and> frameRequests (stopProcessing in_flight_world) = []
   \<and> filter is_invocation (trace (stopProcessing in_flight_world))
       = [DrawDetectionsCalled [helmet (1 / 2)] 1280 720, OnDetection [helmet (1 / 2)]]
   \<and> filter is_invocation
        (trace (processFrame_resume sample_host True (stopProcessing in_flight_world)))
       = [DrawDetectionsCalled [helmet (1 / 2)] 1280 720, OnDetection [helmet (1 / 2)],
          DrawDetectionsCalled [helmet (1 / 2)] 1280 720, OnDetection [helmet (1 / 2)]]
   \<and> frameRequests (processFrame_resume sample_host True (stopProcessing in_flight_world)) = [2]
   \<and> animationId (processFrame_resume sample_host True (stopProcessing in_flight_world)) = Some 2"
  by (simp add: in_flight_world_eq stopProcessing_def cancelAnimationFrame_def
      processFrame_resume_def requestAnimationFrame_def filter_invocation_Canvas)

text \<open>
  C3, amended: \<open>stopProcessing\<close> cancels the animation frame request recorded in
  \<open>animationId\<close> and clears \<open>animationId\<close>; it changes neither the suspended
  \<open>processFrame\<close> nor what has been done so far. When no other request is pending
  and no \<open>detect\<close> call is in flight, nothing runs afterwards: no frame callback and
  no continuation. The code has no guard on an in-flight \<open>detect\<close> call: when that
  call resolves with a batch after \<open>stopProcessing\<close>, the batch is passed to
  \<open>drawDetections\<close> and to \<open>onDetection\<close>, and the next frame is requested.
\<close>

theorem stopProcessing_cancels_request_only:
  "(animationId w = Some handle \<and> handle \<noteq> 0 \<longrightarrow>
      animationId (stopProcessing w) = None
      \<and> frameRequests (stopProcessing w) = removeAll handle (frameRequests w))
   \<and> awaited (stopProcessing w) = awaited w
   \<and> trace (stopProcessing w) = trace w
   \<and> (frameRequests (stopProcessing w) = [] \<and> awaited w = [] \<longrightarrow>
        runFrameCallback k v faults rand (stopProcessing w) = stopProcessing w
        \<and> processFrame_resume h cb (stopProcessing w) = stopProcessing w)
   \<and> (awaited w = Inr ds # rest \<longrightarrow>
        filter is_invocation (trace (processFrame_resume h True (stopProcessing w)))
          = filter is_invocation (trace w)
            @ [DrawDetectionsCalled ds (real (canvasWidth w)) (real (canvasHeight w)),
               OnDetection ds]
        \<and> frameRequests (processFrame_resume h True (stopProcessing w))
          = frameRequests (stopProcessing w) @ [Suc (lastHandle w)]
        \<and> animationId (processFrame_resume h True (stopProcessing w)) = Some (Suc (lastHandle w)))"
  by (cases "animationId w")
     (simp_all add: stopProcessing_def cancelAnimationFrame_def runFrameCallback_def
        processFrame_resume_def requestAnimationFrame_def filter_invocation_Canvas)

theorem stopProcessing_cancels_request_only_witness:
  "animationId pending_world = Some 1 \<and> (1::nat) \<noteq> 0
   \<and> animationId (stopProcessing pending_world) = None
   \<and> frameRequests (stopProcessing pending_world) = []
   \<and> awaited pending_world = []
   \<and> runFrameCallback 1 playing no_faults (constant_random 0) (stopProcessing pending_world)
       = stopProcessing pending_world
   \<and> processFrame_resume sample_host True (stopProcessing pending_world)
       = stopProcessing pending_world
   \<and> awaited in_flight_world = Inr [helmet (1 / 2)] # []
   \<and> frameRequests (processFrame_resume sample_host True (stopProcessing in_flight_world)) = [2]"
  using stopProcessing_cancels_request_only
          [of pending_world 1 1 playing no_faults "constant_random 0" sample_host True
              "[helmet (1 / 2)]" "[]"]
        stopProcessing_cancels_request_only
          [of in_flight_world 1 1 playing no_faults "constant_random 0" sample_host True
              "[helmet (1 / 2)]" "[]"]
  by (simp add: pending_world_eq in_flight_world_eq)




text \<open>
  C6, as stated: on an internal fault \<open>detect\<close> returns an empty sequence and logs
  the error, and the pipeline continues, skipping that tick's render and stats update.
  With a model loaded and \<open>fromPixels\<close> throwing, \<open>detect\<close> returns \<open>[]\<close>;
  \<open>processFrame\<close> then calls \<open>drawDetections\<close> and \<open>onDetection\<close> with the
  empty batch, so the stats of the page, \<open>{2, 1, 0, 85}\<close> before the tick, are
  replaced by \<open>{0, 0, 0, 0}\<close>: the stats update is not skipped. Without a model,
  \<open>detect\<close> throws.
\<close>

theorem fault_tick_counterexample:
  "model (yoloDetector loaded_world) \<noteq> None
   \<and> fromPixels_fault pixel_fault = Some ''no pixels''
   \<and> \<not> paused playing \<and> \<not> ended playing
   \<and> fst (detect (yoloDetector loaded_world) pixel_fault (constant_random 0)
             (randomPos loaded_world)) = Inr []
   \<and> trace (processFrame sample_host True playing pixel_fault (constant_random 0) loaded_world)
       = [Canvas (DrawImage 0 0 1280 720), DetectCalled,
          ConsoleError ''Detection error: no pixels'',
          DrawDetectionsCalled [] 1280 720, OnDetection []]
   \<and> stats_after (updateStats [helmet (9 / 10), jacket (8 / 10)])
        (trace (processFrame sample_host True playing pixel_fault (constant_random 0) loaded_world))
       = \<lparr>totalDetections = 0, safeWorkers = 0, violations = 0, avgConfidence = 0\<rparr>
   \<and> updateStats [helmet (9 / 10), jacket (8 / 10)]
       = \<lparr>totalDetections = 2, safeWorkers = 1, violations = 0, avgConfidence = 85\<rparr>
   \<and> fst (detect \<lparr>model = None\<rparr> pixel_fault (constant_random 0) 0) = Inl ''Model not loaded''"
proof -
  have d: "detect (yoloDetector loaded_world) pixel_fault (constant_random 0)
             (randomPos loaded_world) = (Inr [], 0, [''Detection error: no pixels''])"
    by (simp add: loaded_world_def detect_pixel_fault)
  have t: "trace (processFrame sample_host True playing pixel_fault (constant_random 0) loaded_world)
       = [Canvas (DrawImage 0 0 1280 720), DetectCalled,
          ConsoleError ''Detection error: no pixels'',
          DrawDetectionsCalled [] 1280 720, OnDetection []]"
    by (simp add: processFrame_def processFrame_start_def processFrame_resume_def d
        playing_def)
       (simp add: loaded_world_def requestAnimationFrame_def drawDetections_empty)
  have u: "updateStats [helmet (9 / 10), jacket (8 / 10)]
       = \<lparr>totalDetections = 2, safeWorkers = 1, violations = 0, avgConfidence = 85\<rparr>"
    by (simp add: updateStats_def some_class_def sumConfidence_def helmet_def jacket_def)
  have z: "updateStats []
       = \<lparr>totalDetections = 0, safeWorkers = 0, violations = 0, avgConfidence = 0\<rparr>"
    by (simp add: updateStats_def some_class_def)
  have n: "fst (detect \<lparr>model = None\<rparr> pixel_fault (constant_random 0) 0) = Inl ''Model not loaded''"
    by (simp add: detect_def)
  have m: "model (yoloDetector loaded_world) \<noteq> None"
    by (simp add: loaded_world_def)
  have f: "fromPixels_fault pixel_fault = Some ''no pixels''"
    by (simp add: pixel_fault_def)
  have v: "\<not> paused playing \<and> \<not> ended playing"
    by (simp add: playing_def)
  from d t u z n m f v show ?thesis
    by simp
qed

text \<open>
  C6, amended: with a model loaded, a fault inside the \<open>try\<close> block of
  \<open>detect\<close> makes it log the error and return an empty sequence; without a model
  \<open>detect\<close> throws \<open>Model not loaded\<close>. On a tick of a playing video, an
  empty result is handled like any other batch: \<open>drawDetections\<close> and
  \<open>onDetection\<close> are called with the empty batch (nothing is drawn, the stats become
  those of the empty batch). A thrown error is logged by \<open>processFrame\<close>, and the
  renderer and the callback are not called, so the stats stay as they are. In both cases
  the next frame is requested.
\<close>

theorem detect_fault_handling:
  "(model d \<noteq> None \<and> (fromPixels_fault faults \<noteq> None \<or> dispose_fault faults \<noteq> None) \<longrightarrow>
      fst (detect d faults rand p) = Inr []
      \<and> (\<exists>e. snd (snd (detect d faults rand p)) = [''Detection error: '' @ e]))
   \<and> (model d = None \<longrightarrow> detect d faults rand p = (Inl ''Model not loaded'', p, []))
   \<and> (\<not> paused v \<and> \<not> ended v \<and> awaited w = []
        \<and> fst (detect (yoloDetector w) faults rand (randomPos w)) = Inr [] \<longrightarrow>
        filter is_invocation (trace (processFrame h True v faults rand w))
          = filter is_invocation (trace w)
            @ [DrawDetectionsCalled []
                 (real (if videoWidth v = 0 then 640 else videoWidth v))
                 (real (if videoHeight v = 0 then 480 else videoHeight v)),
               OnDetection []]
        \<and> stats_after s (trace (processFrame h True v faults rand w)) = updateStats []
        \<and> frameRequests (processFrame h True v faults rand w)
            = frameRequests w @ [Suc (lastHandle w)])
   \<and> (\<not> paused v \<and> \<not> ended v \<and> awaited w = []
        \<and> fst (detect (yoloDetector w) faults rand (randomPos w)) = Inl e' \<longrightarrow>
        filter is_invocation (trace (processFrame h True v faults rand w))
          = filter is_invocation (trace w)
        \<and> stats_after s (trace (processFrame h True v faults rand w)) = stats_after s (trace w)
        \<and> last (trace (processFrame h True v faults rand w))
            = ConsoleError (''Detection error: '' @ e')
        \<and> frameRequests (processFrame h True v faults rand w)
            = frameRequests w @ [Suc (lastHandle w)])"
proof (intro conjI impI)
  assume a: "model d \<noteq> None \<and> (fromPixels_fault faults \<noteq> None \<or> dispose_fault faults \<noteq> None)"
  show "fst (detect d faults rand p) = Inr []"
    using a by (cases "fromPixels_fault faults") (auto simp add: detect_cases)
  show "\<exists>e. snd (snd (detect d faults rand p)) = [''Detection error: '' @ e]"
    using a by (cases "fromPixels_fault faults") (auto simp add: detect_cases)
next
  assume "model d = None"
  then show "detect d faults rand p = (Inl ''Model not loaded'', p, [])"
    by (rule detect_cases)
next
  assume a: "\<not> paused v \<and> \<not> ended v \<and> awaited w = []
        \<and> fst (detect (yoloDetector w) faults rand (randomPos w)) = Inr []"
  obtain p' errors where d: "detect (yoloDetector w) faults rand (randomPos w) = (Inr [], p', errors)"
    using a by (cases "detect (yoloDetector w) faults rand (randomPos w)") auto
  from a have pre: "\<not> paused v" "\<not> ended v" "awaited w = []" by simp_all
  note t = processFrame_trace [OF pre d, of h]
  show "filter is_invocation (trace (processFrame h True v faults rand w))
          = filter is_invocation (trace w)
            @ [DrawDetectionsCalled []
                 (real (if videoWidth v = 0 then 640 else videoWidth v))
                 (real (if videoHeight v = 0 then 480 else videoHeight v)),
               OnDetection []]"
    by (simp add: t(1) filter_invocation_ConsoleError drawDetections_empty)
  show "stats_after s (trace (processFrame h True v faults rand w)) = updateStats []"
    by (simp add: t(1) stats_after_append stats_after_ConsoleError drawDetections_empty)
  show "frameRequests (processFrame h True v faults rand w) = frameRequests w @ [Suc (lastHandle w)]"
    by (rule t(2))
next
  assume a: "\<not> paused v \<and> \<not> ended v \<and> awaited w = []
        \<and> fst (detect (yoloDetector w) faults rand (randomPos w)) = Inl e'"
  obtain p' errors where d: "detect (yoloDetector w) faults rand (randomPos w) = (Inl e', p', errors)"
    using a by (cases "detect (yoloDetector w) faults rand (randomPos w)") auto
  from a have pre: "\<not> paused v" "\<not> ended v" "awaited w = []" by simp_all
  note t = processFrame_trace [OF pre d, of h]
  show "filter is_invocation (trace (processFrame h True v faults rand w))
          = filter is_invocation (trace w)"
    by (simp add: t(1) filter_invocation_ConsoleError)
  show "stats_after s (trace (processFrame h True v faults rand w)) = stats_after s (trace w)"
    by (simp add: t(1) stats_after_append stats_after_ConsoleError)
  show "last (trace (processFrame h True v faults rand w)) = ConsoleError (''Detection error: '' @ e')"
    by (simp add: t(1))
  show "frameRequests (processFrame h True v faults rand w) = frameRequests w @ [Suc (lastHandle w)]"
    by (rule t(2))
qed

theorem detect_fault_handling_witness:
  "model \<lparr>model = Some 0\<rparr> \<noteq> None \<and> fromPixels_fault pixel_fault \<noteq> None
   \<and> fst (detect \<lparr>model = Some 0\<rparr> pixel_fault (constant_random 0) 0) = Inr []
   \<and> \<not> paused playing \<and> \<not> ended playing \<and> awaited loaded_world = []
   \<and> filter is_invocation
        (trace (processFrame sample_host True playing pixel_fault (constant_random 0) loaded_world))
       = [DrawDetectionsCalled [] 1280 720, OnDetection []]
   \<and> frameRequests (processFrame sample_host True playing pixel_fault (constant_random 0) loaded_world)
       = [1]
   \<and> model \<lparr>model = None\<rparr> = None
   \<and> detect \<lparr>model = None\<rparr> pixel_fault (constant_random 0) 0 = (Inl ''Model not loaded'', 0, [])
   \<and> fst (detect (yoloDetector (loaded_world\<lparr>yoloDetector := \<lparr>model = None\<rparr>\<rparr>)) pixel_fault
            (constant_random 0) (randomPos (loaded_world\<lparr>yoloDetector := \<lparr>model = None\<rparr>\<rparr>)))
       = Inl ''Model not loaded''
   \<and> filter is_invocation
        (trace (processFrame sample_host True playing pixel_fault (constant_random 0)
                  (loaded_world\<lparr>yoloDetector := \<lparr>model = None\<rparr>\<rparr>))) = []
   \<and> frameRequests (processFrame sample_host True playing pixel_fault (constant_random 0)
                  (loaded_world\<lparr>yoloDetector := \<lparr>model = None\<rparr>\<rparr>)) = [1]"
  using detect_fault_handling
          [of "\<lparr>model = Some 0\<rparr>" pixel_fault "constant_random 0" 0 playing loaded_world
              sample_host "updateStats []" "''Model not loaded''"]
        detect_fault_handling
          [of "\<lparr>model = None\<rparr>" pixel_fault "constant_random 0" 0 playing
              "loaded_world\<lparr>yoloDetector := \<lparr>model = None\<rparr>\<rparr>"
              sample_host "updateStats []" "''Model not loaded''"]
  by (simp add: detect_pixel_fault pixel_fault_def playing_def loaded_world_def detect_def)

end
